theory Spec2Isabelle
  imports Main "HOL-Library.Word" "HOL-Library.Multiset"
begin

section \<open>Go values\<close>

text \<open>
  Go's \<open>int\<close> is a machine integer; on the 64-bit platforms the tool is built for it has
  64 bits, \<open>+\<close> wraps around and \<open>>\<close> compares the signed values.
\<close>

type_synonym go_int = "64 word"

text \<open>The run-time panics that the code of \<open>jira/issue.go\<close> can raise.\<close>

datatype panic = NilPointerDereference | MakeSliceLenOutOfRange

text \<open>A pointer is \<open>None\<close> (nil) or \<open>Some\<close> target; reading through nil panics.\<close>

definition deref :: "'a option \<Rightarrow> panic + 'a" where
  "deref p = (case p of None \<Rightarrow> Inl NilPointerDereference | Some v \<Rightarrow> Inr v)"

section \<open>The records of the client library\<close>

text \<open>
  Modelled from the spec: the raw issue record of the external client (the embedded
  \<open>jira.Issue\<close> with its \<open>Fields\<close>) and the client's response, which are declared in the
  client library and not in this repository. The spec gives the raw record a type name
  and four optional members: status, resolution, priority and the components list. The
  source agrees: it compares \<open>Status\<close>, \<open>Resolution\<close>, \<open>Priority\<close> and \<open>Components\<close>
  with nil and reads \<open>Type.Name\<close> with no test. The field set itself is taken as present
  (the issue has been fetched and decoded): the spec's issue always has one, and no
  method of the source tests it. Only the members that \<open>jira/issue.go\<close> reads are kept.
\<close>

record jira_IssueType =
  IssueType_Name :: string

record jira_Status =
  Status_Name :: string

record jira_Resolution =
  Resolution_Name :: string

record jira_Priority =
  Priority_Name :: string

record jira_Component =
  Component_Name :: string

record jira_IssueFields =
  Type :: jira_IssueType
  Resolution :: "jira_Resolution option"
  Priority :: "jira_Priority option"
  Components :: "jira_Component list option"
  Status :: "jira_Status option"

text \<open>
  Modelled from the spec: the transport response, "exposing an HTTP-like status code".
  The source reads \<open>ret.Response.StatusCode\<close> through the pointer \<open>ret\<close>.
\<close>

record http_Response =
  StatusCode :: go_int

record jira_Response =
  Response :: http_Response

definition http_StatusUnauthorized :: go_int where
  "http_StatusUnauthorized = 401"

definition http_StatusForbidden :: go_int where
  "http_StatusForbidden = 403"

section \<open>The data model of \<open>jira/issue.go\<close>\<close>

record IssueApprovals =
  Development :: bool
  Product :: bool
  Quality :: bool
  Experience :: bool
  Documentation :: bool
  Support :: bool

text \<open>
  The \<open>Comment\<close> type and the \<open>Comments\<close> member of an issue hold values of the client
  library and of Go's \<open>time\<close> package; no function of \<open>jira/issue.go\<close> reads them, and
  they are left out.

  \<open>type IssueCollection []*Issue\<close>: a collection is a Go slice, that is a header
  (backing array, position in it, length, capacity) whose elements live in a backing
  array that other slices may share. \<open>append\<close> writes into that array when the
  capacity allows, so the arrays are kept in an explicit store and a collection is its
  header.
\<close>

type_synonym addr = nat

record slice =
  slice_array :: addr
  slice_offset :: nat
  slice_len :: nat
  slice_cap :: nat

type_synonym IssueCollection = slice

record Issue =
  Fields :: jira_IssueFields
  Link :: string
  ParentLink :: string
  LinkedIssues :: IssueCollection
  StoryPoints :: go_int
  Approvals :: IssueApprovals
  QAContact :: string
  Acceptance :: string
  Owner :: string
  Impediment :: bool

text \<open>
  The store: the backing arrays by address, and the next free address. A slot of an
  array is a pointer to an issue, nil (\<open>None\<close>) or set; no function of this file writes
  an issue, so a set pointer is modelled by the issue it points to.
\<close>

record store =
  arrays :: "addr \<Rightarrow> Issue option list"
  allocated :: addr

text \<open>
  The sentinel error is one value, told apart from every error of the client; those are
  identified here by their message.
\<close>

datatype error = ErrorAuthentication | ClientError string

type_synonym IssueType = string
type_synonym IssueStatus = string
type_synonym IssueResolution = string
type_synonym IssuePriority = string

definition IssueTypeInitiative :: IssueType where
  "IssueTypeInitiative = ''Initiative''"

definition IssueTypeEpic :: IssueType where
  "IssueTypeEpic = ''Epic''"

definition IssueTypeStory :: IssueType where
  "IssueTypeStory = ''Story''"

definition IssueTypeTask :: IssueType where
  "IssueTypeTask = ''Task''"

definition IssueStatusDone :: IssueStatus where
  "IssueStatusDone = ''Done''"

definition IssueStatusObsolete :: IssueStatus where
  "IssueStatusObsolete = ''Obsolete''"

definition IssueStatusInProgress :: IssueStatus where
  "IssueStatusInProgress = ''In Progress''"

definition IssueStatusFeatureComplete :: IssueStatus where
  "IssueStatusFeatureComplete = ''Feature Complete''"

definition IssueStatusCodeReview :: IssueStatus where
  "IssueStatusCodeReview = ''Code Review''"

definition IssueStatusQEReview :: IssueStatus where
  "IssueStatusQEReview = ''QE Review''"

definition IssueResolutionDone :: IssueResolution where
  "IssueResolutionDone = ''Done''"

definition IssuePriorityUnprioritized :: IssuePriority where
  "IssuePriorityUnprioritized = ''Unprioritized''"

section \<open>Error translation\<close>

text \<open>
  \<open>jiraReturnError\<close>: a nil error returns at once; otherwise the status code is read
  through \<open>ret\<close>, with no test of \<open>ret\<close>.
\<close>

definition jiraReturnError :: "jira_Response option \<Rightarrow> error option \<Rightarrow> panic + error option" where
  "jiraReturnError ret err =
     (if err = None then Inr None
      else case deref ret of
        Inl p \<Rightarrow> Inl p
      | Inr resp \<Rightarrow>
          if StatusCode (Response resp) = http_StatusForbidden
             \<or> StatusCode (Response resp) = http_StatusUnauthorized
          then Inr (Some ErrorAuthentication)
          else Inr err)"

section \<open>Approvals\<close>

definition Approved :: "IssueApprovals \<Rightarrow> bool" where
  "Approved a =
     (Development a = True \<and> Product a = True \<and> Quality a = True
      \<and> Experience a = True \<and> Documentation a = True)"

section \<open>Classification of one issue\<close>

text \<open>
  Each method returns its boolean, or the panic of the nil pointer it reads through.
  \<open>IsActive\<close> reads \<open>i.Fields.Status.Name\<close> with no test of \<open>Status\<close>; the \<open>switch\<close>
  has four cases that return true and falls through to \<open>return false\<close>.
\<close>

definition IsActive :: "Issue \<Rightarrow> panic + bool" where
  "IsActive i =
     (case deref (Status (Fields i)) of
        Inl p \<Rightarrow> Inl p
      | Inr st \<Rightarrow>
          if Status_Name st = IssueStatusInProgress then Inr True
          else if Status_Name st = IssueStatusFeatureComplete then Inr True
          else if Status_Name st = IssueStatusCodeReview then Inr True
          else if Status_Name st = IssueStatusQEReview then Inr True
          else Inr False)"

definition IsType :: "Issue \<Rightarrow> IssueType \<Rightarrow> panic + bool" where
  "IsType i tp =
     (if IssueType_Name (Type (Fields i)) = tp then Inr True else Inr False)"

text \<open>\<open>&&\<close> evaluates its right operand only when the left one is true.\<close>

definition InStatus :: "Issue \<Rightarrow> IssueStatus \<Rightarrow> panic + bool" where
  "InStatus i status =
     (if Status (Fields i) \<noteq> None
      then (case deref (Status (Fields i)) of
              Inl p \<Rightarrow> Inl p
            | Inr st \<Rightarrow> Inr (Status_Name st = status))
      else Inr False)"

definition IsResolved :: "Issue \<Rightarrow> panic + bool" where
  "IsResolved i =
     (if Resolution (Fields i) \<noteq> None
      then (case deref (Resolution (Fields i)) of
              Inl p \<Rightarrow> Inl p
            | Inr res \<Rightarrow>
                if Resolution_Name res = IssueResolutionDone then Inr True else Inr False)
      else Inr False)"

definition IsPrioritized :: "Issue \<Rightarrow> panic + bool" where
  "IsPrioritized i =
     (if Priority (Fields i) \<noteq> None
      then (case deref (Priority (Fields i)) of
              Inl p \<Rightarrow> Inl p
            | Inr pr \<Rightarrow>
                if Priority_Name pr = IssuePriorityUnprioritized then Inr False
                else if Priority_Name pr = '''' then Inr False
                else Inr True)
      else Inr True)"

text \<open>
  \<open>NoStoryPoints\<close> is a constant of the package that \<open>jira/issue.go\<close> does not declare:
  it is the first argument of every function that reads it.
\<close>

definition HasStoryPoints :: "go_int \<Rightarrow> Issue \<Rightarrow> panic + bool" where
  "HasStoryPoints NoStoryPoints i =
     (if NoStoryPoints <s StoryPoints i then Inr True else Inr False)"

fun HasComponent_range :: "jira_Component list \<Rightarrow> string \<Rightarrow> bool" where
  "HasComponent_range [] component = False"
| "HasComponent_range (c # cs) component =
     (if Component_Name c = component then True else HasComponent_range cs component)"

definition HasComponent :: "Issue \<Rightarrow> string \<Rightarrow> panic + bool" where
  "HasComponent i component =
     (case Components (Fields i) of
        None \<Rightarrow> Inr False
      | Some cs \<Rightarrow> Inr (HasComponent_range cs component))"

section \<open>Slices in the store\<close>

text \<open>
  What Go keeps true of every slice: its array is allocated, its length is within its
  capacity, and its capacity within the array.
\<close>

definition valid_slice :: "store \<Rightarrow> slice \<Rightarrow> bool" where
  "valid_slice h s =
     (slice_array s < allocated h \<and> slice_len s \<le> slice_cap s
      \<and> slice_offset s + slice_cap s \<le> length (arrays h (slice_array s)))"

text \<open>The elements of a slice, in order: what \<open>range\<close> visits.\<close>

definition elems :: "store \<Rightarrow> slice \<Rightarrow> Issue option list" where
  "elems h s = take (slice_len s) (drop (slice_offset s) (arrays h (slice_array s)))"

text \<open>\<open>s[k]\<close> for \<open>k\<close> below the length.\<close>

definition slice_index :: "store \<Rightarrow> slice \<Rightarrow> nat \<Rightarrow> Issue option" where
  "slice_index h s k = arrays h (slice_array s) ! (slice_offset s + k)"

text \<open>
  \<open>append(s, x)\<close> with one element. With room in the capacity it writes the slot after
  the last element of the same array. Without, it allocates a new array that is large
  enough, copies the elements and adds \<open>x\<close>; Go leaves the new capacity to the run
  time, so it is the parameter \<open>growcap\<close>, raised to the length where it is too small.
\<close>

definition slice_append :: "(nat \<Rightarrow> nat) \<Rightarrow> slice \<Rightarrow> Issue option \<Rightarrow> store \<Rightarrow> slice \<times> store" where
  "slice_append growcap s x h =
     (if slice_len s < slice_cap s
      then (s\<lparr>slice_len := slice_len s + 1\<rparr>,
            h\<lparr>arrays := (arrays h)(slice_array s :=
                 (arrays h (slice_array s))[slice_offset s + slice_len s := x])\<rparr>)
      else let n = max (slice_len s + 1) (growcap (slice_cap s)) in
           (\<lparr>slice_array = allocated h, slice_offset = 0,
             slice_len = slice_len s + 1, slice_cap = n\<rparr>,
            h\<lparr>arrays := (arrays h)(allocated h :=
                 elems h s @ [x] @ replicate (n - (slice_len s + 1)) None),
              allocated := Suc (allocated h)\<rparr>))"

section \<open>Collections\<close>

text \<open>
  \<open>make([]*Issue, size)\<close> panics on a negative size; otherwise it allocates an array of
  \<open>size\<close> nil pointers.
\<close>

definition NewIssueCollection :: "go_int \<Rightarrow> store \<Rightarrow> panic + (IssueCollection \<times> store)" where
  "NewIssueCollection sz h =
     (if sz <s 0 then Inl MakeSliceLenOutOfRange
      else Inr (\<lparr>slice_array = allocated h, slice_offset = 0,
                 slice_len = unat sz, slice_cap = unat sz\<rparr>,
                h\<lparr>arrays := (arrays h)(allocated h := replicate (unat sz) None),
                  allocated := Suc (allocated h)\<rparr>))"

text \<open>
  The loop of \<open>FilterByFunction\<close>: \<open>range c\<close> reads the header of \<open>c\<close> once and then
  the slot \<open>c[k]\<close> at each turn, from the store as it is at that turn.
\<close>

fun FilterByFunction_range ::
  "(nat \<Rightarrow> nat) \<Rightarrow> (Issue option \<Rightarrow> bool) \<Rightarrow> IssueCollection \<Rightarrow> nat list
     \<Rightarrow> IssueCollection \<times> store \<Rightarrow> IssueCollection \<times> store" where
  "FilterByFunction_range growcap fn c [] (r, h) = (r, h)"
| "FilterByFunction_range growcap fn c (k # ks) (r, h) =
     (let i = slice_index h c k in
      FilterByFunction_range growcap fn c ks
        (if fn i then slice_append growcap r i h else (r, h)))"

definition FilterByFunction ::
  "(nat \<Rightarrow> nat) \<Rightarrow> store \<Rightarrow> IssueCollection \<Rightarrow> (Issue option \<Rightarrow> bool)
     \<Rightarrow> panic + (IssueCollection \<times> store)" where
  "FilterByFunction growcap h c fn =
     (case NewIssueCollection 0 h of
        Inl p \<Rightarrow> Inl p
      | Inr (r, h') \<Rightarrow> Inr (FilterByFunction_range growcap fn c [0..<slice_len c] (r, h')))"

definition Len :: "IssueCollection \<Rightarrow> go_int" where
  "Len c = word_of_nat (slice_len c)"

text \<open>
  The loop of \<open>StoryPoints\<close> over the slots of the collection, which it only reads.
  The method call \<open>i.HasStoryPoints()\<close> reads \<open>i.StoryPoints\<close> through the slot's
  pointer, nil or not.
\<close>

fun StoryPoints_range :: "go_int \<Rightarrow> Issue option list \<Rightarrow> go_int \<Rightarrow> panic + go_int" where
  "StoryPoints_range NoStoryPoints [] points = Inr points"
| "StoryPoints_range NoStoryPoints (slot # slots) points =
     (case deref slot of
        Inl p \<Rightarrow> Inl p
      | Inr i \<Rightarrow>
          (case HasStoryPoints NoStoryPoints i of
             Inl p \<Rightarrow> Inl p
           | Inr b \<Rightarrow>
               StoryPoints_range NoStoryPoints slots
                 (if b then points + StoryPoints i else points)))"

definition IssueCollection_StoryPoints :: "go_int \<Rightarrow> store \<Rightarrow> IssueCollection \<Rightarrow> panic + go_int" where
  "IssueCollection_StoryPoints NoStoryPoints h c =
     StoryPoints_range NoStoryPoints (elems h c) 0"

section \<open>Example values\<close>

text \<open>The nil slice, and an issue whose optional members are all absent.\<close>

definition nil_slice :: slice where
  "nil_slice = \<lparr>slice_array = 0, slice_offset = 0, slice_len = 0, slice_cap = 0\<rparr>"

definition bare_Fields :: jira_IssueFields where
  "bare_Fields = \<lparr>Type = \<lparr>IssueType_Name = ''Story''\<rparr>, Resolution = None, Priority = None,
     Components = None, Status = None\<rparr>"

definition bare_Issue :: Issue where
  "bare_Issue = \<lparr>Fields = bare_Fields, Link = '''', ParentLink = '''', LinkedIssues = nil_slice,
     StoryPoints = 0, Approvals = \<lparr>Development = False, Product = False, Quality = False,
       Experience = False, Documentation = False, Support = False\<rparr>,
     QAContact = '''', Acceptance = '''', Owner = '''', Impediment = False\<rparr>"

definition issue_with_status :: "string \<Rightarrow> Issue" where
  "issue_with_status s = bare_Issue\<lparr>Fields := bare_Fields\<lparr>Status := Some \<lparr>Status_Name = s\<rparr>\<rparr>\<rparr>"

definition issue_with_priority :: "string \<Rightarrow> Issue" where
  "issue_with_priority s = bare_Issue\<lparr>Fields := bare_Fields\<lparr>Priority := Some \<lparr>Priority_Name = s\<rparr>\<rparr>\<rparr>"

definition issue_with_points :: "go_int \<Rightarrow> Issue" where
  "issue_with_points p = bare_Issue\<lparr>StoryPoints := p\<rparr>"

definition response_with_status :: "go_int \<Rightarrow> jira_Response" where
  "response_with_status sc = \<lparr>Response = \<lparr>StatusCode = sc\<rparr>\<rparr>"

text \<open>
  The store before any allocation; the store and the collection that
  \<open>NewIssueCollection(1)\<close> makes from it; and a collection of four issues that is a
  window on a longer array.
\<close>

definition empty_store :: store where
  "empty_store = \<lparr>arrays = (\<lambda>a. []), allocated = 0\<rparr>"

definition one_slot :: IssueCollection where
  "one_slot = \<lparr>slice_array = 0, slice_offset = 0, slice_len = 1, slice_cap = 1\<rparr>"

definition one_slot_store :: store where
  "one_slot_store = \<lparr>arrays = (\<lambda>a. [])(0 := [None]), allocated = 1\<rparr>"

definition sprint :: IssueCollection where
  "sprint = \<lparr>slice_array = 0, slice_offset = 1, slice_len = 4, slice_cap = 5\<rparr>"

definition sprint_store :: store where
  "sprint_store = \<lparr>arrays = (\<lambda>a. [])(0 :=
      [None, Some (issue_with_points 3), Some (issue_with_points 0),
       Some (issue_with_points 5), Some (issue_with_points 2), None]),
     allocated = 1\<rparr>"

definition estimated :: "Issue option \<Rightarrow> bool" where
  "estimated p = (case p of None \<Rightarrow> False | Some i \<Rightarrow> 0 <s StoryPoints i)"

lemmas vocabulary_defs =
  IssueTypeInitiative_def IssueTypeEpic_def IssueTypeStory_def IssueTypeTask_def
  IssueStatusDone_def IssueStatusObsolete_def IssueStatusInProgress_def
  IssueStatusFeatureComplete_def IssueStatusCodeReview_def IssueStatusQEReview_def
  IssueResolutionDone_def IssuePriorityUnprioritized_def

lemmas example_defs =
  bare_Issue_def bare_Fields_def issue_with_status_def issue_with_priority_def
  issue_with_points_def nil_slice_def

section \<open>Approvals: the five gates\<close>

text \<open>
  C4. For every \<open>IssueApprovals\<close> value, \<open>Approved()\<close> is true if and only if the five
  gates Development, Product, Quality, Experience and Documentation are all true, and
  the result does not depend on the Support gate: setting Support to any value leaves
  \<open>Approved()\<close> as it was.
\<close>

theorem Approved_five_gates:
  "Approved a = (Development a \<and> Product a \<and> Quality a \<and> Experience a \<and> Documentation a)
   \<and> Approved (a\<lparr>Support := b\<rparr>) = Approved a"
  by (simp add: Approved_def)

section \<open>Error translation: nil errors, authentication failures, other errors\<close>

text \<open>
  C5. A nil error gives nil, whatever the response. With a non-nil error and a response
  whose status code is 401 or 403 the result is the sentinel \<open>ErrorAuthentication\<close>;
  with any other status code it is the error that was passed in.
\<close>

theorem jiraReturnError_translation:
  "jiraReturnError ret None = Inr None
   \<and> (StatusCode (Response resp) = 401 \<or> StatusCode (Response resp) = 403 \<longrightarrow>
        jiraReturnError (Some resp) (Some e) = Inr (Some ErrorAuthentication))
   \<and> (StatusCode (Response resp) \<noteq> 401 \<and> StatusCode (Response resp) \<noteq> 403 \<longrightarrow>
        jiraReturnError (Some resp) (Some e) = Inr (Some e))"
  by (simp add: jiraReturnError_def deref_def http_StatusForbidden_def http_StatusUnauthorized_def)

text \<open>At the status codes 401, 403 and 500.\<close>

theorem jiraReturnError_translation_witness:
  "jiraReturnError (Some (response_with_status 401)) None = Inr None
   \<and> jiraReturnError (Some (response_with_status 401)) (Some (ClientError ''denied''))
       = Inr (Some ErrorAuthentication)
   \<and> jiraReturnError (Some (response_with_status 403)) (Some (ClientError ''denied''))
       = Inr (Some ErrorAuthentication)
   \<and> jiraReturnError (Some (response_with_status 500)) (Some (ClientError ''broken''))
       = Inr (Some (ClientError ''broken''))"
  using jiraReturnError_translation
      [of "Some (response_with_status 401)" "response_with_status 401" "ClientError ''denied''"]
    jiraReturnError_translation [of None "response_with_status 403" "ClientError ''denied''"]
    jiraReturnError_translation [of None "response_with_status 500" "ClientError ''broken''"]
  by (simp add: response_with_status_def)

text \<open>
  C10. With a nil error the function returns nil without reading the response, so also
  for a nil response. With a non-nil error it reads the status code through the
  response pointer: on a nil response that is a nil dereference, and the function
  returns a value exactly when the response is present whenever the error is non-nil.
\<close>

theorem jiraReturnError_nil_response:
  "jiraReturnError None None = Inr None
   \<and> jiraReturnError None (Some e) = Inl NilPointerDereference
   \<and> ((\<exists>v. jiraReturnError ret err = Inr v) \<longleftrightarrow> (err \<noteq> None \<longrightarrow> ret \<noteq> None))"
  by (auto simp add: jiraReturnError_def deref_def split: option.splits)

text \<open>A failed request with no response, and one with a response.\<close>

theorem jiraReturnError_nil_response_witness:
  "jiraReturnError None None = Inr None
   \<and> jiraReturnError None (Some (ClientError ''no route to host'')) = Inl NilPointerDereference
   \<and> (\<exists>v. jiraReturnError (Some (response_with_status 500)) (Some (ClientError ''broken''))
         = Inr v)"
  using jiraReturnError_nil_response [of "ClientError ''no route to host''"
      "Some (response_with_status 500)" "Some (ClientError ''broken'')"]
  by simp

section \<open>Classification of one issue: what each method answers\<close>

text \<open>
  Six of the seven classification methods return a boolean on every issue, whichever
  optional members are absent.
\<close>

lemma classification_total:
  "(\<exists>b. IsType i tp = Inr b) \<and> (\<exists>b. InStatus i status = Inr b) \<and> (\<exists>b. IsResolved i = Inr b)
   \<and> (\<exists>b. IsPrioritized i = Inr b) \<and> (\<exists>b. HasStoryPoints NoStoryPoints i = Inr b)
   \<and> (\<exists>b. HasComponent i component = Inr b)"
  by (auto simp add: IsType_def InStatus_def IsResolved_def IsPrioritized_def
      HasStoryPoints_def HasComponent_def deref_def split: option.splits)

text \<open>\<open>IsActive\<close> on an issue that has a status: true exactly for the four active names.\<close>

lemma IsActive_with_status:
  "Status (Fields i) = Some st \<Longrightarrow>
     IsActive i = Inr (Status_Name st \<in>
       {''In Progress'', ''Feature Complete'', ''Code Review'', ''QE Review''})"
  by (simp add: IsActive_def deref_def vocabulary_defs)

text \<open>
  C1. Every classification method is to return a boolean on every issue, also on one
  whose optional members are absent. On the issue with no status, resolution, priority
  and components, \<open>InStatus\<close>, \<open>IsResolved\<close>, \<open>IsPrioritized\<close>, \<open>HasComponent\<close>,
  \<open>IsType\<close> and \<open>HasStoryPoints\<close> answer, and \<open>IsActive\<close>, which reads the status with
  no nil test, panics.
\<close>

theorem IsActive_panics_where_the_others_answer:
  "IsActive bare_Issue = Inl NilPointerDereference
   \<and> InStatus bare_Issue IssueStatusInProgress = Inr False
   \<and> IsResolved bare_Issue = Inr False
   \<and> IsPrioritized bare_Issue = Inr True
   \<and> HasComponent bare_Issue ''backend'' = Inr False
   \<and> IsType bare_Issue IssueTypeStory = Inr True
   \<and> HasStoryPoints 0 bare_Issue = Inr False"
  by (simp add: IsActive_def InStatus_def IsResolved_def IsPrioritized_def HasComponent_def
      IsType_def HasStoryPoints_def deref_def example_defs vocabulary_defs)

text \<open>
  C2. \<open>IsActive()\<close> is to be true exactly for the status names In Progress, Feature
  Complete, Code Review and QE Review, and false for every other status and for an
  unset status. On an issue whose status is unset the code does not return false: it
  panics on the nil status pointer.
\<close>

theorem IsActive_unset_status_panics:
  "IsActive (i\<lparr>Fields := (Fields i)\<lparr>Status := None\<rparr>\<rparr>) = Inl NilPointerDereference"
  by (simp add: IsActive_def deref_def)

text \<open>
  C3. \<open>IsPrioritized()\<close> is true when the priority is absent; when it is present the
  result is false for the empty name and for the name Unprioritized, and true for
  every other name.
\<close>

theorem IsPrioritized_cases:
  "(Priority (Fields i) = None \<longrightarrow> IsPrioritized i = Inr True)
   \<and> (\<forall>p. Priority (Fields i) = Some p \<longrightarrow>
        IsPrioritized i = Inr (Priority_Name p \<noteq> '''' \<and> Priority_Name p \<noteq> ''Unprioritized''))"
  by (auto simp add: IsPrioritized_def deref_def vocabulary_defs)

text \<open>With no priority, and with the priorities empty, Unprioritized and Major.\<close>

theorem IsPrioritized_cases_witness:
  "IsPrioritized bare_Issue = Inr True
   \<and> IsPrioritized (issue_with_priority '''') = Inr False
   \<and> IsPrioritized (issue_with_priority ''Unprioritized'') = Inr False
   \<and> IsPrioritized (issue_with_priority ''Major'') = Inr True"
  using IsPrioritized_cases [of bare_Issue] IsPrioritized_cases [of "issue_with_priority ''''"]
    IsPrioritized_cases [of "issue_with_priority ''Unprioritized''"]
    IsPrioritized_cases [of "issue_with_priority ''Major''"]
  by (simp add: example_defs)

text \<open>
  C8. \<open>InStatus(s)\<close> is true if and only if the status is present and its name is \<open>s\<close>;
  with no status it is false for every \<open>s\<close>.
\<close>

theorem InStatus_iff_present_and_equal:
  "InStatus i s = Inr (\<exists>st. Status (Fields i) = Some st \<and> Status_Name st = s)
   \<and> (Status (Fields i) = None \<longrightarrow> InStatus i s = Inr False)"
  by (auto simp add: InStatus_def deref_def)

text \<open>An issue that is Done, asked for Done and for Obsolete, and an issue with no status.\<close>

theorem InStatus_iff_present_and_equal_witness:
  "InStatus (issue_with_status ''Done'') ''Done'' = Inr True
   \<and> InStatus (issue_with_status ''Done'') ''Obsolete'' = Inr False
   \<and> InStatus bare_Issue ''Done'' = Inr False"
  using InStatus_iff_present_and_equal [of "issue_with_status ''Done''" "''Done''"]
    InStatus_iff_present_and_equal [of "issue_with_status ''Done''" "''Obsolete''"]
    InStatus_iff_present_and_equal [of bare_Issue "''Done''"]
  by (simp add: example_defs)

text \<open>
  C9. \<open>HasStoryPoints()\<close> is true if and only if the story points are greater (as signed
  integers) than \<open>NoStoryPoints\<close>: false when they equal the sentinel, true for any
  greater value.
\<close>

theorem HasStoryPoints_iff_above_sentinel:
  "HasStoryPoints NoStoryPoints i = Inr (NoStoryPoints <s StoryPoints i)
   \<and> (StoryPoints i = NoStoryPoints \<longrightarrow> HasStoryPoints NoStoryPoints i = Inr False)
   \<and> (NoStoryPoints <s StoryPoints i \<longrightarrow> HasStoryPoints NoStoryPoints i = Inr True)"
  by (simp add: HasStoryPoints_def)

text \<open>With the sentinel 0, and with the sentinel -1.\<close>

theorem HasStoryPoints_iff_above_sentinel_witness:
  "HasStoryPoints 0 (issue_with_points 0) = Inr False
   \<and> HasStoryPoints 0 (issue_with_points 1) = Inr True
   \<and> HasStoryPoints (- 1) (issue_with_points (- 1)) = Inr False
   \<and> HasStoryPoints (- 1) (issue_with_points 0) = Inr True"
  using HasStoryPoints_iff_above_sentinel [of 0 "issue_with_points 0"]
    HasStoryPoints_iff_above_sentinel [of 0 "issue_with_points 1"]
    HasStoryPoints_iff_above_sentinel [of "- 1" "issue_with_points (- 1)"]
    HasStoryPoints_iff_above_sentinel [of "- 1" "issue_with_points 0"]
  by (simp add: example_defs word_sless_alt)

section \<open>Slices: reading and appending\<close>

text \<open>A valid slice lists its elements by index, as \<open>range\<close> reads them.\<close>

lemma elems_index:
  assumes "valid_slice h s"
  shows "elems h s = map (slice_index h s) [0..<slice_len s]"
proof (rule nth_equalityI)
  show "length (elems h s) = length (map (slice_index h s) [0..<slice_len s])"
    using assms by (auto simp add: elems_def valid_slice_def)
next
  fix k assume "k < length (elems h s)"
  then show "elems h s ! k = map (slice_index h s) [0..<slice_len s] ! k"
    using assms by (simp add: elems_def valid_slice_def slice_index_def)
qed

text \<open>Appending in place extends the elements by the new one.\<close>

lemma slice_append_in_place:
  assumes "valid_slice h r" and "slice_len r < slice_cap r"
    and "slice_append growcap r x h = (r', h')"
  shows "elems h' r' = elems h r @ [x]"
proof -
  let ?arr = "arrays h (slice_array r)"
  have n: "slice_offset r + slice_len r < length ?arr"
    using assms(1,2) by (simp add: valid_slice_def)
  have r': "r' = r\<lparr>slice_len := slice_len r + 1\<rparr>"
    and h': "h' = h\<lparr>arrays := (arrays h)(slice_array r := ?arr[slice_offset r + slice_len r := x])\<rparr>"
    using assms(2,3) by (simp_all add: slice_append_def)
  have "elems h' r' =
      take (Suc (slice_len r)) (drop (slice_offset r) (?arr[slice_offset r + slice_len r := x]))"
    by (simp add: r' h' elems_def)
  also have "\<dots> = take (slice_len r) (drop (slice_offset r) ?arr) @ [x]"
    using n by (simp add: take_Suc_conv_app_nth drop_update_swap)
  finally show ?thesis by (simp add: elems_def)
qed

text \<open>So does appending into a new array.\<close>

lemma slice_append_elems:
  assumes "valid_slice h r" and "slice_append growcap r x h = (r', h')"
  shows "elems h' r' = elems h r @ [x]"
proof (cases "slice_len r < slice_cap r")
  case True
  from assms(1) True assms(2) show ?thesis by (rule slice_append_in_place)
next
  case False
  define es where "es = elems h r"
  define n where "n = max (slice_len r + 1) (growcap (slice_cap r))"
  have len: "length es = slice_len r"
    using assms(1) by (auto simp add: es_def elems_def valid_slice_def)
  have r': "slice_offset r' = 0" "slice_len r' = Suc (length es)"
    and h': "arrays h' (slice_array r') = es @ [x] @ replicate (n - (slice_len r + 1)) None"
    using False assms(2)
    by (auto simp add: slice_append_def Let_def es_def n_def len [unfolded es_def])
  have "elems h' r' = take (slice_len r') (drop (slice_offset r') (arrays h' (slice_array r')))"
    by (simp add: elems_def)
  also have "\<dots> = es @ [x]"
    by (simp add: r' h')
  finally show ?thesis by (simp add: es_def)
qed

lemma slice_append_valid:
  assumes "valid_slice h r" and "slice_append growcap r x h = (r', h')"
  shows "valid_slice h' r'"
proof -
  have len: "length (elems h r) = slice_len r"
    using assms(1) by (auto simp add: elems_def valid_slice_def)
  show ?thesis
    using assms by (auto simp add: slice_append_def valid_slice_def Let_def len split: if_splits)
qed

text \<open>
  Appending to a slice whose array lies at or above the address \<open>a0\<close> writes no array
  below \<open>a0\<close>, and the result lies at or above \<open>a0\<close> again.
\<close>

lemma slice_append_frame:
  assumes "valid_slice h r" and "slice_append growcap r x h = (r', h')"
    and "a0 \<le> slice_array r"
  shows "a0 \<le> slice_array r' \<and> allocated h \<le> allocated h'
         \<and> (\<forall>a. a < a0 \<longrightarrow> arrays h' a = arrays h a)"
  using assms by (auto simp add: slice_append_def valid_slice_def Let_def split: if_splits)

section \<open>FilterByFunction\<close>

text \<open>
  The invariant of the loop: the result slice \<open>r\<close> stays valid and above \<open>a0\<close>, the
  arrays below \<open>a0\<close> (that of \<open>c\<close> among them) are as they were, and \<open>r\<close> has gained
  the visited slots that \<open>fn\<close> accepts, in the order of the visit.
\<close>

lemma FilterByFunction_range_inv:
  assumes "valid_slice h r" and "a0 \<le> slice_array r" and "slice_array c < a0"
    and "FilterByFunction_range growcap fn c ks (r, h) = (r', h')"
  shows "valid_slice h' r' \<and> a0 \<le> slice_array r' \<and> allocated h \<le> allocated h'
         \<and> (\<forall>a. a < a0 \<longrightarrow> arrays h' a = arrays h a)
         \<and> elems h' r' = elems h r @ filter fn (map (slice_index h c) ks)"
  using assms
proof (induction ks arbitrary: r h)
  case Nil
  then show ?case by simp
next
  case (Cons k ks)
  show ?case
  proof (cases "fn (slice_index h c k)")
    case False
    with Cons.prems(4) have "FilterByFunction_range growcap fn c ks (r, h) = (r', h')"
      by simp
    from Cons.IH [OF Cons.prems(1,2,3) this] False show ?thesis by simp
  next
    case True
    obtain r1 h1 where app: "slice_append growcap r (slice_index h c k) h = (r1, h1)"
      by (cases "slice_append growcap r (slice_index h c k) h")
    from True app Cons.prems(4)
    have run: "FilterByFunction_range growcap fn c ks (r1, h1) = (r', h')"
      by simp
    have v1: "valid_slice h1 r1"
      using Cons.prems(1) app by (rule slice_append_valid)
    have e1: "elems h1 r1 = elems h r @ [slice_index h c k]"
      using Cons.prems(1) app by (rule slice_append_elems)
    have f1: "a0 \<le> slice_array r1 \<and> allocated h \<le> allocated h1
         \<and> (\<forall>a. a < a0 \<longrightarrow> arrays h1 a = arrays h a)"
      using Cons.prems(1) app Cons.prems(2) by (rule slice_append_frame)
    have same: "slice_index h1 c = slice_index h c"
      using f1 Cons.prems(3) by (auto simp add: slice_index_def fun_eq_iff)
    from Cons.IH [OF v1 _ Cons.prems(3) run] f1
    have "valid_slice h' r' \<and> a0 \<le> slice_array r' \<and> allocated h1 \<le> allocated h'
         \<and> (\<forall>a. a < a0 \<longrightarrow> arrays h' a = arrays h1 a)
         \<and> elems h' r' = elems h1 r1 @ filter fn (map (slice_index h1 c) ks)"
      by simp
    with f1 e1 same True show ?thesis by simp
  qed
qed

lemma NewIssueCollection_zero:
  "NewIssueCollection 0 h =
     Inr (\<lparr>slice_array = allocated h, slice_offset = 0, slice_len = 0, slice_cap = 0\<rparr>,
          h\<lparr>arrays := (arrays h)(allocated h := []), allocated := Suc (allocated h)\<rparr>)"
  by (simp add: NewIssueCollection_def)

text \<open>
  The call returns; its result holds the accepted elements in order, in an array that
  did not exist before the call; and no array that existed is written.
\<close>

lemma FilterByFunction_run:
  assumes "valid_slice h c"
  shows "\<exists>r h'. FilterByFunction growcap h c fn = Inr (r, h')
     \<and> elems h' r = filter fn (elems h c)
     \<and> valid_slice h' r \<and> allocated h \<le> slice_array r
     \<and> (\<forall>a. a < allocated h \<longrightarrow> arrays h' a = arrays h a)"
proof -
  let ?r0 = "\<lparr>slice_array = allocated h, slice_offset = 0, slice_len = 0, slice_cap = 0\<rparr>"
  let ?h0 = "h\<lparr>arrays := (arrays h)(allocated h := []), allocated := Suc (allocated h)\<rparr>"
  obtain r h' where
    run: "FilterByFunction_range growcap fn c [0..<slice_len c] (?r0, ?h0) = (r, h')"
    by (cases "FilterByFunction_range growcap fn c [0..<slice_len c] (?r0, ?h0)")
  have v0: "valid_slice ?h0 ?r0" by (simp add: valid_slice_def)
  have c0: "slice_array c < allocated h" using assms by (simp add: valid_slice_def)
  have inv: "valid_slice h' r \<and> allocated h \<le> slice_array r \<and> allocated ?h0 \<le> allocated h'
         \<and> (\<forall>a. a < allocated h \<longrightarrow> arrays h' a = arrays ?h0 a)
         \<and> elems h' r = elems ?h0 ?r0 @ filter fn (map (slice_index ?h0 c) [0..<slice_len c])"
    by (rule FilterByFunction_range_inv [OF v0 _ c0 run]) simp
  have idx: "slice_index ?h0 c = slice_index h c"
    using c0 by (simp add: slice_index_def fun_eq_iff)
  have e0: "elems ?h0 ?r0 = []"
    by (simp add: elems_def)
  have "FilterByFunction growcap h c fn = Inr (r, h')"
    by (simp add: FilterByFunction_def NewIssueCollection_zero run)
  moreover from inv e0 have "elems h' r = filter fn (elems h c)"
    by (simp add: idx elems_index [OF assms])
  moreover have "\<forall>a. a < allocated h \<longrightarrow> arrays h' a = arrays h a"
    using inv by simp
  ultimately show ?thesis using inv by blast
qed

text \<open>
  C6. For every collection \<open>c\<close> (a valid slice of the store) and every predicate,
  \<open>FilterByFunction\<close> returns a collection whose elements are exactly those elements of
  \<open>c\<close> that the predicate accepts, in the order they have in \<open>c\<close>. The result is new:
  its array is allocated by the call. The call writes no array that existed before, so
  \<open>c\<close> is still valid and has the elements it had. With the always-true predicate the
  result has the elements of \<open>c\<close> in the same order; with the always-false predicate it
  has length 0.
\<close>

theorem FilterByFunction_filters_in_order:
  "valid_slice h c \<Longrightarrow>
     (\<exists>r h'. FilterByFunction growcap h c fn = Inr (r, h')
        \<and> elems h' r = filter fn (elems h c)
        \<and> valid_slice h' r \<and> allocated h \<le> slice_array r
        \<and> (\<forall>a. a < allocated h \<longrightarrow> arrays h' a = arrays h a)
        \<and> valid_slice h' c \<and> elems h' c = elems h c)
   \<and> (\<exists>r h'. FilterByFunction growcap h c (\<lambda>i. True) = Inr (r, h') \<and> elems h' r = elems h c)
   \<and> (\<exists>r h'. FilterByFunction growcap h c (\<lambda>i. False) = Inr (r, h') \<and> Len r = 0
         \<and> elems h' r = [])"
proof (intro conjI)
  assume v: "valid_slice h c"
  from FilterByFunction_run [OF v, of growcap fn]
  obtain r h' where run: "FilterByFunction growcap h c fn = Inr (r, h')"
    and res: "elems h' r = filter fn (elems h c)"
    and new: "valid_slice h' r" "allocated h \<le> slice_array r"
    and frame: "\<forall>a. a < allocated h \<longrightarrow> arrays h' a = arrays h a"
    by blast
  have c: "arrays h' (slice_array c) = arrays h (slice_array c)" "slice_array c < allocated h"
    using v frame by (simp_all add: valid_slice_def)
  have "allocated h \<le> allocated h'"
    using new by (simp add: valid_slice_def)
  with c v have "valid_slice h' c" "elems h' c = elems h c"
    by (simp_all add: valid_slice_def elems_def)
  with run res new frame
  show "\<exists>r h'. FilterByFunction growcap h c fn = Inr (r, h')
        \<and> elems h' r = filter fn (elems h c)
        \<and> valid_slice h' r \<and> allocated h \<le> slice_array r
        \<and> (\<forall>a. a < allocated h \<longrightarrow> arrays h' a = arrays h a)
        \<and> valid_slice h' c \<and> elems h' c = elems h c"
    by blast
next
  assume v: "valid_slice h c"
  from FilterByFunction_run [OF v, of growcap "\<lambda>i. True"]
  show "\<exists>r h'. FilterByFunction growcap h c (\<lambda>i. True) = Inr (r, h') \<and> elems h' r = elems h c"
    by auto
next
  assume v: "valid_slice h c"
  from FilterByFunction_run [OF v, of growcap "\<lambda>i. False"]
  obtain r h' where run: "FilterByFunction growcap h c (\<lambda>i. False) = Inr (r, h')"
    and res: "elems h' r = []" and new: "valid_slice h' r"
    by auto
  from res new have "slice_len r = 0"
    by (auto simp add: elems_def valid_slice_def)
  with run res
  show "\<exists>r h'. FilterByFunction growcap h c (\<lambda>i. False) = Inr (r, h') \<and> Len r = 0
         \<and> elems h' r = []"
    by (simp add: Len_def)
qed

text \<open>
  The four issues of \<open>sprint\<close>, filtered for those with more than 0 story points: three
  remain, in order, and \<open>sprint\<close> still holds its four.
\<close>

theorem FilterByFunction_filters_in_order_witness:
  "valid_slice sprint_store sprint
   \<and> (\<exists>r h'. FilterByFunction (\<lambda>n. n + 2) sprint_store sprint estimated = Inr (r, h')
        \<and> elems h' r =
            [Some (issue_with_points 3), Some (issue_with_points 5), Some (issue_with_points 2)]
        \<and> elems h' sprint =
            [Some (issue_with_points 3), Some (issue_with_points 0),
             Some (issue_with_points 5), Some (issue_with_points 2)])"
proof -
  have v: "valid_slice sprint_store sprint"
    by (simp add: valid_slice_def sprint_def sprint_store_def)
  have e: "elems sprint_store sprint =
      [Some (issue_with_points 3), Some (issue_with_points 0),
       Some (issue_with_points 5), Some (issue_with_points 2)]"
    by (simp add: elems_def sprint_def sprint_store_def)
  have f: "filter estimated (elems sprint_store sprint) =
     [Some (issue_with_points 3), Some (issue_with_points 5), Some (issue_with_points 2)]"
    by (simp add: e estimated_def issue_with_points_def word_sless_alt)
  from FilterByFunction_filters_in_order [OF v, of "\<lambda>n. n + 2" estimated] v e f
  show ?thesis
    by auto
qed

text \<open>
  The same call, run step by step: the first accepted issue goes to a new array of
  capacity 2, the second is written in place, the third moves the result to a new
  array of capacity 4; the array of \<open>sprint\<close> (address 0) is as it was.
\<close>

lemma FilterByFunction_sprint_run:
  "FilterByFunction (\<lambda>n. n + 2) sprint_store sprint estimated =
     Inr (\<lparr>slice_array = 3, slice_offset = 0, slice_len = 3, slice_cap = 4\<rparr>,
          \<lparr>arrays = (\<lambda>a. [])
             (0 := [None, Some (issue_with_points 3), Some (issue_with_points 0),
                    Some (issue_with_points 5), Some (issue_with_points 2), None],
              1 := [],
              2 := [Some (issue_with_points 3), Some (issue_with_points 5)],
              3 := [Some (issue_with_points 3), Some (issue_with_points 5),
                    Some (issue_with_points 2), None]),
            allocated = 4\<rparr>)"
  by (simp add: FilterByFunction_def NewIssueCollection_def sprint_def sprint_store_def
      upt_rec slice_index_def slice_append_def elems_def estimated_def issue_with_points_def
      word_sless_alt Let_def fun_eq_iff numeral_eq_Suc)

section \<open>The story points of a collection\<close>

text \<open>Over slots that are all set, the loop adds up the story points above the sentinel.\<close>

lemma StoryPoints_range_set:
  "StoryPoints_range n (map Some is) points =
     Inr (points + sum_list (map StoryPoints (filter (\<lambda>i. n <s StoryPoints i) is)))"
  by (induction "is" arbitrary: points) (simp_all add: deref_def HasStoryPoints_def)

text \<open>A nil slot anywhere makes the loop panic.\<close>

lemma StoryPoints_range_nil_slot:
  "None \<in> set slots \<Longrightarrow> StoryPoints_range n slots points = Inl NilPointerDereference"
proof (induction slots arbitrary: points)
  case Nil
  then show ?case by simp
next
  case (Cons slot slots)
  then show ?case
    by (cases slot) (auto simp add: deref_def HasStoryPoints_def)
qed

lemma counted_sum_perm:
  fixes f :: "'a \<Rightarrow> go_int"
  assumes "mset xs = mset ys"
  shows "sum_list (map f (filter P xs)) = sum_list (map f (filter P ys))"
proof -
  have "mset (map f (filter P xs)) = mset (map f (filter P ys))"
    using assms by simp
  then show ?thesis
    by (metis sum_mset_sum_list)
qed

text \<open>
  The sum is Go's: it wraps around at 64 bits. Where the sum of the signed values fits
  in 64 bits, it is that sum.
\<close>

lemma sum_list_of_sint:
  fixes ws :: "go_int list"
  shows "sum_list ws = word_of_int (sum_list (map sint ws))"
  by (induction ws) simp_all

lemma sint_sum_list_exact:
  fixes ws :: "go_int list"
  assumes "- (2 ^ 63) \<le> sum_list (map sint ws)" and "sum_list (map sint ws) < 2 ^ 63"
  shows "sint (sum_list ws) = sum_list (map sint ws)"
proof -
  have "sint (sum_list ws) = signed_take_bit 63 (sum_list (map sint ws))"
    by (subst sum_list_of_sint) (simp only: signed_of_int, simp)
  with assms show ?thesis
    by (simp add: signed_take_bit_int_eq_self)
qed

text \<open>
  C7, as amended. For every collection whose slots are all set (none is nil),
  \<open>StoryPoints()\<close> returns the sum of the \<open>StoryPoints\<close> member over exactly those
  elements for which \<open>HasStoryPoints()\<close> is true, the others adding nothing; the result
  is the same for every collection that holds the same issues in another order; and
  with the sentinel 0 or -1, issues with the story points 3, 0, 5 and 2 sum to 10.
\<close>

theorem IssueCollection_StoryPoints_sum:
  "elems h c = map Some is \<Longrightarrow>
     IssueCollection_StoryPoints NoStoryPoints h c =
       Inr (sum_list (map StoryPoints
              (filter (\<lambda>i. HasStoryPoints NoStoryPoints i = Inr True) is)))
   \<and> (\<forall>h' c' is'. elems h' c' = map Some is' \<and> mset is' = mset is \<longrightarrow>
         IssueCollection_StoryPoints NoStoryPoints h' c'
           = IssueCollection_StoryPoints NoStoryPoints h c)
   \<and> ((NoStoryPoints = 0 \<or> NoStoryPoints = - 1) \<and> map StoryPoints is = [3, 0, 5, 2] \<longrightarrow>
         IssueCollection_StoryPoints NoStoryPoints h c = Inr 10)"
proof (intro conjI allI impI)
  assume e: "elems h c = map Some is"
  have has: "(\<lambda>i. HasStoryPoints NoStoryPoints i = Inr True)
      = (\<lambda>i. NoStoryPoints <s StoryPoints i)"
    by (simp add: HasStoryPoints_def fun_eq_iff)
  show sum: "IssueCollection_StoryPoints NoStoryPoints h c =
       Inr (sum_list (map StoryPoints
              (filter (\<lambda>i. HasStoryPoints NoStoryPoints i = Inr True) is)))"
    by (simp add: IssueCollection_StoryPoints_def e StoryPoints_range_set has)
  {
    fix h' c' is'
    assume p: "elems h' c' = map Some is' \<and> mset is' = mset is"
    then have "IssueCollection_StoryPoints NoStoryPoints h' c' =
       Inr (sum_list (map StoryPoints (filter (\<lambda>i. NoStoryPoints <s StoryPoints i) is')))"
      by (simp add: IssueCollection_StoryPoints_def StoryPoints_range_set)
    moreover from p
    have "sum_list (map StoryPoints (filter (\<lambda>i. NoStoryPoints <s StoryPoints i) is')) =
        sum_list (map StoryPoints (filter (\<lambda>i. NoStoryPoints <s StoryPoints i) is))"
      by (intro counted_sum_perm) simp
    ultimately
    show "IssueCollection_StoryPoints NoStoryPoints h' c'
        = IssueCollection_StoryPoints NoStoryPoints h c"
      unfolding sum has by simp
  }
  {
    assume x: "(NoStoryPoints = 0 \<or> NoStoryPoints = - 1) \<and> map StoryPoints is = [3, 0, 5, 2]"
    then obtain i1 i2 i3 i4 where "is = [i1, i2, i3, i4]"
      and "StoryPoints i1 = 3" "StoryPoints i2 = 0" "StoryPoints i3 = 5" "StoryPoints i4 = 2"
      by (auto simp add: map_eq_Cons_conv)
    with x sum [unfolded has] show "IssueCollection_StoryPoints NoStoryPoints h c = Inr 10"
      by (auto simp add: word_sless_alt)
  }
qed

text \<open>The four issues of \<open>sprint\<close>, with 3, 0, 5 and 2 story points and the sentinel 0.\<close>

theorem IssueCollection_StoryPoints_sum_witness:
  "elems sprint_store sprint =
      map Some [issue_with_points 3, issue_with_points 0, issue_with_points 5,
        issue_with_points 2]
   \<and> IssueCollection_StoryPoints 0 sprint_store sprint = Inr 10"
proof -
  have e: "elems sprint_store sprint =
      map Some [issue_with_points 3, issue_with_points 0, issue_with_points 5,
        issue_with_points 2]"
    by (simp add: elems_def sprint_def sprint_store_def)
  have "map StoryPoints [issue_with_points 3, issue_with_points 0, issue_with_points 5,
      issue_with_points 2] = [3, 0, 5, 2]"
    by (simp add: issue_with_points_def)
  with IssueCollection_StoryPoints_sum [OF e, of 0] e show ?thesis
    by blast
qed

text \<open>
  C7 as stated speaks of every collection. The collection that \<open>NewIssueCollection(1)\<close>
  returns has one slot, which is nil, and \<open>StoryPoints()\<close> panics on it: it returns no sum.
\<close>

theorem IssueCollection_StoryPoints_nil_slot_panics:
  "NewIssueCollection 1 empty_store = Inr (one_slot, one_slot_store)
   \<and> IssueCollection_StoryPoints 0 one_slot_store one_slot = Inl NilPointerDereference"
  by (simp add: NewIssueCollection_def empty_store_def one_slot_def one_slot_store_def
      IssueCollection_StoryPoints_def elems_def deref_def word_sless_alt)

end
